theory Spec2Isabelle
  imports Main "HOL-Library.AList"
begin

section \<open>dump\_wfs: the collaborators of the script\<close>

text \<open>
  The script \<^verbatim>\<open>dump_wfs.py\<close> streams the features of one WFS layer to standard output as
  NDJSON. It talks to three libraries (OGR, shapely, json) whose code is not part of the
  repository. They are modelled as data handed to the script: a feature is the record of
  the answers of its accessor methods, the layer cursor is the list of the results of the
  successive calls of \<^verbatim>\<open>GetNextFeature\<close>, and the geometry and JSON calls are the two
  functions of a \<open>library\<close> record. Wall-clock readings (\<^verbatim>\<open>time.time()\<close>) only feed
  the elapsed time shown in a progress line and are left out; \<^verbatim>\<open>time.sleep\<close> is an
  event of the trace.
\<close>

text \<open>Exceptions that can reach the script.\<close>

datatype exn =
    AssertionError
  | AttributeError
  | KeyError
  | UnboundLocalError
  | ZeroDivisionError
  | OutOfData nat
  | LibraryError nat

text \<open>
  \<open>OutOfData b\<close> is the script's own \<^verbatim>\<open>Exception(f'Out of data? backoff:{backoff}')\<close>
  (line 75); \<open>LibraryError\<close> stands for any exception a library call raises, with an
  opaque tag.
\<close>

type_synonym field_defn = "string \<times> string"
  \<comment> \<open>\<^verbatim>\<open>GetName()\<close>, \<^verbatim>\<open>GetTypeName()\<close> of an attribute field definition\<close>

type_synonym geom_field_defn = "string \<times> string option"
  \<comment> \<open>\<^verbatim>\<open>GetName()\<close> and the WKT of \<^verbatim>\<open>GetSpatialRef()\<close>, \<open>None\<close> when the field has no
      spatial reference (\<^verbatim>\<open>GetSpatialRef()\<close> returns \<^verbatim>\<open>None\<close>)\<close>

type_synonym 'v attrs = "(string \<times> 'v) list"
  \<comment> \<open>a Python dict with string keys, in insertion order\<close>

record ('v, 'g) feature =
  GetFieldCount :: nat
  GetFieldDefnRef :: "nat \<Rightarrow> field_defn"
  GetField :: "nat \<Rightarrow> exn + 'v"
  GetGeomFieldCount :: nat
  GetGeomFieldDefnRef :: "nat \<Rightarrow> geom_field_defn"
  GetGeomFieldRef :: "nat \<Rightarrow> 'g option"

text \<open>
  The usual OGR feature: as many values as field definitions; \<^verbatim>\<open>GetField\<close> outside the
  range raises \<^verbatim>\<open>KeyError\<close>, \<^verbatim>\<open>GetGeomFieldRef\<close> outside the range returns \<^verbatim>\<open>None\<close>.
\<close>

definition ogr_feature ::
  "(field_defn \<times> 'v) list \<Rightarrow> (geom_field_defn \<times> 'g option) list \<Rightarrow> ('v, 'g) feature"
where
  "ogr_feature fs gs =
     \<lparr> GetFieldCount = length fs,
       GetFieldDefnRef = (\<lambda>i. fst (fs ! i)),
       GetField = (\<lambda>i. if i < length fs then Inr (snd (fs ! i)) else Inl KeyError),
       GetGeomFieldCount = length gs,
       GetGeomFieldDefnRef = (\<lambda>i. fst (gs ! i)),
       GetGeomFieldRef = (\<lambda>i. if i < length gs then snd (gs ! i) else None) \<rparr>"

text \<open>One call of \<^verbatim>\<open>layer.GetNextFeature()\<close>: a feature, \<^verbatim>\<open>None\<close>, or an exception.\<close>

datatype ('v, 'g) outcome =
    Returns "('v, 'g) feature option"
  | Raises exn

text \<open>
  The cursor is the list of the outcomes still to come. Once the list is used up the
  cursor keeps returning \<^verbatim>\<open>None\<close>, which is how OGR reports the end of the data.
\<close>

fun GetNextFeature ::
  "('v, 'g) outcome list \<Rightarrow> ('v, 'g) outcome \<times> ('v, 'g) outcome list"
where
  "GetNextFeature [] = (Returns None, [])"
| "GetNextFeature (r # rs) = (r, rs)"

text \<open>
  The geometry and JSON libraries. \<open>geo_mapping\<close> is lines 140--143 in one piece
  (\<^verbatim>\<open>GetLinearGeometry\<close>, \<^verbatim>\<open>ExportToWkb\<close>, \<^verbatim>\<open>shapely.wkb.loads\<close>,
  \<^verbatim>\<open>shapely.geometry.mapping\<close>): it returns the geometry dict or raises. \<open>json_dump\<close>
  tells whether \<^verbatim>\<open>json.dump\<close> of a geometry dict with the given \<^verbatim>\<open>properties\<close> raises
  (\<open>Some e\<close>) or completes (\<open>None\<close>).
\<close>

record ('v, 'g, 'j) library =
  geo_mapping :: "'g \<Rightarrow> exn + 'j"
  json_dump :: "'j \<Rightarrow> 'v attrs \<Rightarrow> exn option"

section \<open>Observable behaviour\<close>

text \<open>
  What is written to standard output. \<open>Json d a\<close> is one completed
  \<^verbatim>\<open>json.dump(geo_dict, sys.stdout, ensure_ascii=False, separators=(',',':'))\<close> of the
  geometry dict \<open>d\<close> with \<^verbatim>\<open>geo_dict['properties'] = a\<close>; \<open>Json_aborted d a\<close> is such a
  call that raised (it may have written a part of its text); \<open>Newline\<close> is the bare
  \<^verbatim>\<open>print()\<close> of line 146. The other three are the lines of the layer-listing mode
  (lines 150, 152, 158), each ended by its newline.
\<close>

datatype ('v, 'j) out =
    Json 'j "'v attrs"
  | Json_aborted 'j "'v attrs"
  | Newline
  | Listing_header
  | Layer_count nat
  | Layer_entry nat string

text \<open>What is written to standard error, one constructor per message.\<close>

datatype ('v, 'g) diag =
    Usage
  | Banner_WFS string
  | Banner_Layer string
  | Banner_Filter string
  | Features_unknown
  | Features int
  | SR string
  | Traceback exn
  | Maximum_retries nat
  | Trying_again nat nat
  | Last_feature
  | First_feature "(string \<times> string \<times> 'v) list"
  | Geom_field string string
  | Progress nat int
  | Finished
  | Final_count nat
  | Skipping_empty_geom string "('v, 'g) feature" "'v attrs"
  | Uncaught exn

datatype ('v, 'g, 'j) event =
    Fetch
  | Sleep nat
  | SetAttributeFilter string
  | GetFeatureCount
  | Stdout "('v, 'j) out"
  | Stderr "('v, 'g) diag"

text \<open>
  A piece of the script run from some point on: the events it produced, and either the
  exception that ended it (\<open>Inl\<close>) or its result.
\<close>

type_synonym ('v, 'g, 'j, 'a) run = "('v, 'g, 'j) event list \<times> (exn + 'a)"

definition ok :: "'a \<Rightarrow> ('v, 'g, 'j, 'a) run" where
  "ok a = ([], Inr a)"

definition raise :: "exn \<Rightarrow> ('v, 'g, 'j, 'a) run" where
  "raise e = ([], Inl e)"

definition emit :: "('v, 'g, 'j) event \<Rightarrow> ('v, 'g, 'j, unit) run" where
  "emit ev = ([ev], Inr ())"

definition lift :: "exn + 'a \<Rightarrow> ('v, 'g, 'j, 'a) run" where
  "lift r = ([], r)"

fun prepend :: "('v, 'g, 'j) event list \<Rightarrow> ('v, 'g, 'j, 'a) run \<Rightarrow> ('v, 'g, 'j, 'a) run" where
  "prepend evs (evs', r) = (evs @ evs', r)"

text \<open>Sequencing: the second piece runs only if the first did not raise.\<close>

definition seq ::
  "('v, 'g, 'j, 'a) run \<Rightarrow> ('a \<Rightarrow> ('v, 'g, 'j, 'b) run) \<Rightarrow> ('v, 'g, 'j, 'b) run"
where
  "seq m f = (case snd m of Inl e \<Rightarrow> (fst m, Inl e) | Inr a \<Rightarrow> prepend (fst m) (f a))"

text \<open>A list comprehension over calls that may raise: the first exception wins.\<close>

fun collect :: "(exn + 'a) list \<Rightarrow> exn + 'a list" where
  "collect [] = Inr []"
| "collect (Inl e # rs) = Inl e"
| "collect (Inr a # rs) = (case collect rs of Inl e \<Rightarrow> Inl e | Inr as \<Rightarrow> Inr (a # as))"

text \<open>
  A dict comprehension \<^verbatim>\<open>{k: v for ...}\<close>: a key seen again keeps its place and takes the
  new value.
\<close>

definition dict_of :: "('k \<times> 'a) list \<Rightarrow> ('k \<times> 'a) list" where
  "dict_of kvs = foldl (\<lambda>d (k, v). AList.update k v d) [] kvs"

section \<open>The paged feature iterator: \<^verbatim>\<open>get_features\<close>\<close>

text \<open>
  The local variables of the generator that the loop changes. \<open>schema\<close> holds
  \<^verbatim>\<open>names\<close> and \<^verbatim>\<open>gnames\<close>; it is \<open>None\<close> while the two are still unbound.
\<close>

record iter_state =
  n_features :: nat
  backoff :: nat
  schema :: "(string list \<times> string list) option"

definition initial :: iter_state where
  "initial = \<lparr> n_features = 0, backoff = 0, schema = None \<rparr>"

text \<open>The two \<^verbatim>\<open>break\<close> statements of the loop: line 94 and line 84.\<close>

datatype exit_reason = EXHAUSTED | ABORTED

datatype loop_ctl = Next iter_state | Break exit_reason

text \<open>The \<^verbatim>\<open>except Exception\<close> handler, lines 80--89.\<close>

definition handler :: "exn \<Rightarrow> iter_state \<Rightarrow> ('v, 'g, 'j, loop_ctl) run" where
  "handler ex st =
     (if 3 \<le> backoff st
      then ([Stderr (Traceback ex), Stderr (Maximum_retries (backoff st))],
            Inr (Break ABORTED))
      else ([Stderr (Traceback ex),
             Stderr (Trying_again (2 ^ backoff st) (backoff st)),
             Sleep (2 ^ backoff st)],
            Inr (Next (st\<lparr>backoff := backoff st + 1\<rparr>))))"

text \<open>Lines 106--107: \<^verbatim>\<open>g.GetSpatialRef().ExportToWkt()\<close> raises when there is no reference.\<close>

fun print_gdefns :: "geom_field_defn list \<Rightarrow> ('v, 'g, 'j, unit) run" where
  "print_gdefns [] = ok ()"
| "print_gdefns ((name, srs) # gs) =
     (case srs of
        None \<Rightarrow> raise AttributeError
      | Some wkt \<Rightarrow> seq (emit (Stderr (Geom_field name wkt))) (\<lambda>_. print_gdefns gs))"

text \<open>Lines 97--107: the schema is read from the feature, then the first feature is shown.\<close>

definition capture_schema ::
  "('v, 'g) feature \<Rightarrow> ('v, 'g, 'j, string list \<times> string list) run"
where
  "capture_schema feat =
     (let defns = map (GetFieldDefnRef feat) [0..<GetFieldCount feat];
          names = map fst defns;
          gdefns = map (GetGeomFieldDefnRef feat) [0..<GetGeomFieldCount feat];
          gnames = map fst gdefns
      in seq (lift (collect (map (GetField feat) [0..<length defns]))) (\<lambda>vals.
         seq (emit (Stderr (First_feature (zip names (zip (map snd defns) vals))))) (\<lambda>_.
         seq (print_gdefns gdefns) (\<lambda>_.
         ok (names, gnames)))))"

text \<open>Line 109 and line 110: the cached names, by position.\<close>

definition read_attrs :: "('v, 'g) feature \<Rightarrow> string list \<Rightarrow> exn + 'v attrs" where
  "read_attrs feat names =
     (case collect (map (GetField feat) [0..<length names]) of
        Inl e \<Rightarrow> Inl e
      | Inr vals \<Rightarrow> Inr (dict_of (zip names vals)))"

definition read_g_attrs :: "('v, 'g) feature \<Rightarrow> string list \<Rightarrow> (string \<times> 'g option) list" where
  "read_g_attrs feat gnames =
     dict_of (zip gnames (map (GetGeomFieldRef feat) [0..<length gnames]))"

text \<open>
  Lines 114--124, with \<open>n\<close> the count after the increment of line 113. The percentage
  \<^verbatim>\<open>100*n_features/num_features\<close> raises \<^verbatim>\<open>ZeroDivisionError\<close> for a zero
  \<^verbatim>\<open>num_features\<close>.
\<close>

definition report_progress :: "int \<Rightarrow> nat \<Rightarrow> ('v, 'g, 'j, unit) run" where
  "report_progress num_features n =
     (if n mod 10000 = 0
      then (if num_features = 0 then raise ZeroDivisionError
            else emit (Stderr (Progress n num_features)))
      else ok ())"

text \<open>
  Lines 109--124: the attributes and geometries are read through the cached names, the
  triple is yielded, and the count goes up. \<open>body\<close> is the consumer of the generator: the
  body of the \<^verbatim>\<open>async for\<close>, which runs while the generator is suspended at its
  \<^verbatim>\<open>yield\<close> (line 111).
\<close>

definition yield_feature ::
  "(('v, 'g) feature \<times> 'v attrs \<times> (string \<times> 'g option) list \<Rightarrow> ('v, 'g, 'j, unit) run) \<Rightarrow>
   int \<Rightarrow> iter_state \<Rightarrow> ('v, 'g) feature \<Rightarrow> string list \<Rightarrow> string list \<Rightarrow>
   ('v, 'g, 'j, loop_ctl) run"
where
  "yield_feature body num_features st feat names gnames =
     seq (lift (read_attrs feat names)) (\<lambda>attrs.
     seq (body (feat, attrs, read_g_attrs feat gnames)) (\<lambda>_.
     seq (report_progress num_features (n_features st + 1)) (\<lambda>_.
     ok (Next (st\<lparr>n_features := n_features st + 1, schema := Some (names, gnames)\<rparr>)))))"

text \<open>
  Lines 91--124, what follows the \<^verbatim>\<open>try\<close> statement, with \<open>feat\<close> the value it left.
  Reading \<^verbatim>\<open>names\<close> while it is unbound would raise \<^verbatim>\<open>UnboundLocalError\<close>.
\<close>

definition after_try ::
  "(('v, 'g) feature \<times> 'v attrs \<times> (string \<times> 'g option) list \<Rightarrow> ('v, 'g, 'j, unit) run) \<Rightarrow>
   int \<Rightarrow> iter_state \<Rightarrow> ('v, 'g) feature option \<Rightarrow> ('v, 'g, 'j, loop_ctl) run"
where
  "after_try body num_features st feat =
     (case feat of
        None \<Rightarrow> ([Stderr Last_feature], Inr (Break EXHAUSTED))
      | Some f \<Rightarrow>
          seq (if n_features st = 0
               then seq (capture_schema f) (\<lambda>s. ok (Some s))
               else ok (schema st)) (\<lambda>sch.
          case sch of
            None \<Rightarrow> raise UnboundLocalError
          | Some (names, gnames) \<Rightarrow> yield_feature body num_features st f names gnames))"

text \<open>One pass through the body of \<^verbatim>\<open>while True\<close>, given what the cursor answers.\<close>

definition iteration ::
  "(('v, 'g) feature \<times> 'v attrs \<times> (string \<times> 'g option) list \<Rightarrow> ('v, 'g, 'j, unit) run) \<Rightarrow>
   int \<Rightarrow> iter_state \<Rightarrow> ('v, 'g) outcome \<Rightarrow> ('v, 'g, 'j, loop_ctl) run"
where
  "iteration body num_features st r =
     prepend [Fetch]
       (case r of
          Raises ex \<Rightarrow> handler ex st
        | Returns None \<Rightarrow> handler (OutOfData (backoff st)) st
        | Returns (Some feat) \<Rightarrow> after_try body num_features (st\<lparr>backoff := 0\<rparr>) (Some feat))"

text \<open>The loop of lines 70--124; it returns how it was left and the last state.\<close>

function loop ::
  "(('v, 'g) feature \<times> 'v attrs \<times> (string \<times> 'g option) list \<Rightarrow> ('v, 'g, 'j, unit) run) \<Rightarrow>
   int \<Rightarrow> iter_state \<Rightarrow> ('v, 'g) outcome list \<Rightarrow>
   ('v, 'g, 'j, exit_reason \<times> iter_state) run"
where
  "loop body num_features st cur =
     (case iteration body num_features st (fst (GetNextFeature cur)) of
        (evs, Inl e) \<Rightarrow> (evs, Inl e)
      | (evs, Inr (Break why)) \<Rightarrow> (evs, Inr (why, st))
      | (evs, Inr (Next st')) \<Rightarrow>
          prepend evs (loop body num_features st' (snd (GetNextFeature cur))))"
  by pat_completeness auto
termination
proof (relation "measures [\<lambda>(body, num, st, cur). length cur,
                           \<lambda>(body, num, st, cur). 3 - backoff st]")
  show "wf (measures [\<lambda>(body :: ('v, 'g) feature \<times> 'v attrs \<times> (string \<times> 'g option) list \<Rightarrow> ('v, 'g, 'j, unit) run,
                         num :: int, st :: iter_state, cur :: ('v, 'g) outcome list). length cur,
                      \<lambda>(body, num, st, cur). 3 - backoff st])"
    by simp
next
  fix body :: "('v, 'g) feature \<times> 'v attrs \<times> (string \<times> 'g option) list \<Rightarrow> ('v, 'g, 'j, unit) run"
  fix num :: int and st st' :: iter_state and cur :: "('v, 'g) outcome list"
  fix evs :: "('v, 'g, 'j) event list" and x y c
  assume "(evs, y) = iteration body num st (fst (GetNextFeature cur))"
    and "y = Inr c" and "c = Next st'"
  then have it: "iteration body num st (fst (GetNextFeature cur)) = (evs, Inr (Next st'))"
    by simp
  show "((body, num, st', snd (GetNextFeature cur)), body, num, st, cur)
        \<in> measures [\<lambda>(body, num, st, cur). length cur, \<lambda>(body, num, st, cur). 3 - backoff st]"
  proof (cases cur)
    case Nil
    with it show ?thesis
      by (auto simp: iteration_def handler_def split: if_splits)
  next
    case (Cons r rs)
    then show ?thesis by simp
  qed
qed

section \<open>The consumer: \<^verbatim>\<open>print_features_geojson\<close>\<close>

text \<open>Lines 136--146, the loop over \<^verbatim>\<open>geom_attributes.items()\<close>.\<close>

fun print_geoms ::
  "('v, 'g, 'j) library \<Rightarrow> ('v, 'g) feature \<Rightarrow> 'v attrs \<Rightarrow> (string \<times> 'g option) list \<Rightarrow>
   ('v, 'g, 'j, unit) run"
where
  "print_geoms L feat attributes [] = ok ()"
| "print_geoms L feat attributes ((name, geom) # rest) =
     (case geom of
        None \<Rightarrow>
          seq (emit (Stderr (Skipping_empty_geom name feat attributes)))
            (\<lambda>_. print_geoms L feat attributes rest)
      | Some g \<Rightarrow>
          (case geo_mapping L g of
             Inl e \<Rightarrow> raise e
           | Inr geo_dict \<Rightarrow>
               (case json_dump L geo_dict attributes of
                  Some e \<Rightarrow> ([Stdout (Json_aborted geo_dict attributes)], Inl e)
                | None \<Rightarrow>
                    seq (emit (Stdout (Json geo_dict attributes))) (\<lambda>_.
                    seq (emit (Stdout Newline)) (\<lambda>_.
                    print_geoms L feat attributes rest)))))"

definition print_body ::
  "('v, 'g, 'j) library \<Rightarrow>
   ('v, 'g) feature \<times> 'v attrs \<times> (string \<times> 'g option) list \<Rightarrow> ('v, 'g, 'j, unit) run"
where
  "print_body L = (\<lambda>(feat, attributes, geom_attributes).
     print_geoms L feat attributes geom_attributes)"

section \<open>The layer session and the top level\<close>

text \<open>
  A layer of the data source: its name, the WKT of its spatial reference (\<open>None\<close> when
  \<^verbatim>\<open>GetSpatialRef()\<close> returns \<^verbatim>\<open>None\<close>), what \<^verbatim>\<open>GetFeatureCount()\<close> answers, and
  what its cursor will answer under the attribute filter that was set (\<open>None\<close>: no
  filter).
\<close>

record ('v, 'g) layer =
  lname :: string
  lsrs :: "string option"
  feature_count :: int
  features :: "string option \<Rightarrow> ('v, 'g) outcome list"

text \<open>\<^verbatim>\<open>if server_attribute_filter:\<close> --- neither \<^verbatim>\<open>None\<close> nor the empty string.\<close>

definition effective_filter :: "string option \<Rightarrow> string option" where
  "effective_filter server_attribute_filter =
     (case server_attribute_filter of
        None \<Rightarrow> None
      | Some f \<Rightarrow> if f = [] then None else Some f)"

text \<open>
  Lines 43--127. \<^verbatim>\<open>GetLayerByName\<close> returns \<^verbatim>\<open>None\<close> for an unknown layer, and line 44
  then raises \<^verbatim>\<open>AttributeError\<close>; so does line 64 for a layer without spatial reference.
\<close>

definition get_features ::
  "(('v, 'g) feature \<times> 'v attrs \<times> (string \<times> 'g option) list \<Rightarrow> ('v, 'g, 'j, unit) run) \<Rightarrow>
   ('v, 'g) layer list \<Rightarrow> string \<Rightarrow> string option \<Rightarrow> ('v, 'g, 'j, exit_reason) run"
where
  "get_features body wfs_ds layer_name server_attribute_filter =
     (case find (\<lambda>l. lname l = layer_name) wfs_ds of
        None \<Rightarrow> raise AttributeError
      | Some layer \<Rightarrow>
          seq (case effective_filter server_attribute_filter of
                 Some f \<Rightarrow> emit (SetAttributeFilter f)
               | None \<Rightarrow> ok ()) (\<lambda>_.
          seq (case effective_filter server_attribute_filter of
                 Some f \<Rightarrow> seq (emit (Stderr Features_unknown)) (\<lambda>_. ok 1000000)
               | None \<Rightarrow>
                   seq (emit GetFeatureCount) (\<lambda>_.
                   seq (emit (Stderr (Features (feature_count layer)))) (\<lambda>_.
                   ok (feature_count layer)))) (\<lambda>num_features.
          seq (case lsrs layer of
                 None \<Rightarrow> raise AttributeError
               | Some wkt \<Rightarrow> emit (Stderr (SR wkt))) (\<lambda>_.
          seq (loop body num_features initial
                 (features layer (effective_filter server_attribute_filter))) (\<lambda>(why, st).
          seq (emit (Stderr Finished)) (\<lambda>_.
          seq (emit (Stderr (Final_count (n_features st)))) (\<lambda>_.
          ok why)))))))"

definition print_features_geojson ::
  "('v, 'g, 'j) library \<Rightarrow> ('v, 'g) layer list \<Rightarrow> string \<Rightarrow> string option \<Rightarrow>
   ('v, 'g, 'j, exit_reason) run"
where
  "print_features_geojson L wfs_ds layer_name server_attribute_filter =
     get_features (print_body L) wfs_ds layer_name server_attribute_filter"

text \<open>Lines 150--158: the layer list goes to standard output.\<close>

definition list_layers :: "('v, 'g) layer list \<Rightarrow> ('v, 'g, 'j) event list" where
  "list_layers wfs_ds =
     [Stdout Listing_header, Stdout (Layer_count (length wfs_ds))] @
     map (\<lambda>(i, l). Stdout (Layer_entry i (lname l))) (enumerate 0 wfs_ds)"

text \<open>Lines 33--36, the banner on standard error.\<close>

definition banner :: "string \<Rightarrow> string \<Rightarrow> string option \<Rightarrow> ('v, 'g, 'j) event list" where
  "banner url layer_name server_attribute_filter =
     [Stderr (Banner_WFS url),
      Stderr (Banner_Layer (if layer_name = [] then ''<EMPTY>'' else layer_name))] @
     (case effective_filter server_attribute_filter of
        Some f \<Rightarrow> [Stderr (Banner_Filter f)]
      | None \<Rightarrow> [])"

text \<open>
  The module, top to bottom: the events of the process and its exit status. \<open>Open\<close> is
  \<^verbatim>\<open>wfs_drv.Open\<close>, \<open>None\<close> when the data source cannot be opened. With fewer than
  three words in \<^verbatim>\<open>sys.argv\<close> the \<^verbatim>\<open>IndexError\<close> of lines 22--23 is caught and the usage
  is shown (lines 25--30). An exception that nothing catches ends the process with the
  interpreter's traceback and status 1; reaching the end of the module gives status 0.
\<close>

definition main ::
  "('v, 'g, 'j) library \<Rightarrow> (string \<Rightarrow> ('v, 'g) layer list option) \<Rightarrow> string list \<Rightarrow>
   ('v, 'g, 'j) event list \<times> nat"
where
  "main L Open argv =
     (if length argv < 3 then ([Stderr Usage], 1)
      else
        let url = argv ! 1;
            layer_name = argv ! 2;
            server_attribute_filter = (if 3 < length argv then Some (argv ! 3) else None)
        in case Open url of
             None \<Rightarrow>
               (banner url layer_name server_attribute_filter @
                [Stderr (Uncaught AssertionError)], 1)
           | Some wfs_ds \<Rightarrow>
               if layer_name = []
               then (banner url layer_name server_attribute_filter @ list_layers wfs_ds, 0)
               else
                 (case print_features_geojson L wfs_ds layer_name server_attribute_filter of
                    (evs, Inl e) \<Rightarrow>
                      (banner url layer_name server_attribute_filter @ evs @
                       [Stderr (Uncaught e)], 1)
                  | (evs, Inr why) \<Rightarrow>
                      (banner url layer_name server_attribute_filter @ evs, 0)))"

section \<open>Reading a trace\<close>

fun stdout_of :: "('v, 'g, 'j) event list \<Rightarrow> ('v, 'j) out list" where
  "stdout_of [] = []"
| "stdout_of (Stdout x # evs) = x # stdout_of evs"
| "stdout_of (_ # evs) = stdout_of evs"

fun stderr_of :: "('v, 'g, 'j) event list \<Rightarrow> ('v, 'g) diag list" where
  "stderr_of [] = []"
| "stderr_of (Stderr d # evs) = d # stderr_of evs"
| "stderr_of (_ # evs) = stderr_of evs"

fun sleeps_of :: "('v, 'g, 'j) event list \<Rightarrow> nat list" where
  "sleeps_of [] = []"
| "sleeps_of (Sleep n # evs) = n # sleeps_of evs"
| "sleeps_of (_ # evs) = sleeps_of evs"

fun fetches_of :: "('v, 'g, 'j) event list \<Rightarrow> nat" where
  "fetches_of [] = 0"
| "fetches_of (Fetch # evs) = Suc (fetches_of evs)"
| "fetches_of (_ # evs) = fetches_of evs"

text \<open>The cursor calls and the sleeps of a trace, in their order.\<close>

fun timing_of :: "('v, 'g, 'j) event list \<Rightarrow> ('v, 'g, 'j) event list" where
  "timing_of [] = []"
| "timing_of (Fetch # evs) = Fetch # timing_of evs"
| "timing_of (Sleep n # evs) = Sleep n # timing_of evs"
| "timing_of (_ # evs) = timing_of evs"

text \<open>A failed advance of the cursor: an exception, or \<^verbatim>\<open>None\<close>.\<close>

fun is_failure :: "('v, 'g) outcome \<Rightarrow> bool" where
  "is_failure (Returns (Some feat)) = False"
| "is_failure _ = True"

text \<open>
  The state at the head of the loop once the cursor has given the outcomes \<open>rs\<close>, and the
  events up to there; \<open>None\<close> when the loop has ended before.
\<close>

fun state_after ::
  "(('v, 'g) feature \<times> 'v attrs \<times> (string \<times> 'g option) list \<Rightarrow> ('v, 'g, 'j, unit) run) \<Rightarrow>
   int \<Rightarrow> iter_state \<Rightarrow> ('v, 'g) outcome list \<Rightarrow>
   (('v, 'g, 'j) event list \<times> iter_state) option"
where
  "state_after body num_features st [] = Some ([], st)"
| "state_after body num_features st (r # rs) =
     (case iteration body num_features st r of
        (evs, Inr (Next st')) \<Rightarrow>
          (case state_after body num_features st' rs of
             None \<Rightarrow> None
           | Some (evs', st'') \<Rightarrow> Some (evs @ evs', st''))
      | _ \<Rightarrow> None)"

section \<open>The retry schedule in the words of the specification\<close>

text \<open>
  \<open>retries b n\<close>: \<open>n\<close> failed attempts from backoff level \<open>b\<close> on, each followed by its
  sleep of \<open>2 ^ level\<close> time units. \<open>backoff_schedule N\<close> is what the specification
  promises for \<open>N\<close> consecutive failures from level 0: \<open>min N 4\<close> attempts, the sleeps
  1, 2, 4 between them, and no sleep after the fourth.
\<close>

fun retries :: "nat \<Rightarrow> nat \<Rightarrow> ('v, 'g, 'j) event list" where
  "retries b 0 = []"
| "retries b (Suc n) = Fetch # Sleep (2 ^ b) # retries (Suc b) n"

definition backoff_schedule :: "nat \<Rightarrow> ('v, 'g, 'j) event list" where
  "backoff_schedule N = retries 0 (min N 3) @ (if 4 \<le> N then [Fetch] else [])"

section \<open>The schema of a scan in the words of the specification\<close>

text \<open>The features a list of cursor outcomes delivers, in their order.\<close>

fun features_of :: "('v, 'g) outcome list \<Rightarrow> ('v, 'g) feature list" where
  "features_of [] = []"
| "features_of (Returns (Some feat) # rs) = feat # features_of rs"
| "features_of (_ # rs) = features_of rs"


definition geom_names :: "('v, 'g) feature \<Rightarrow> string list" where
  "geom_names feat = map (\<lambda>i. fst (GetGeomFieldDefnRef feat i)) [0..<GetGeomFieldCount feat]"

section \<open>The layer session in the words of the specification\<close>

text \<open>
  The estimated feature count: the sentinel 1,000,000 under a server-side filter, the
  exact count of the service otherwise.
\<close>

definition estimated_count :: "('v, 'g) layer \<Rightarrow> string option \<Rightarrow> int" where
  "estimated_count layer server_attribute_filter =
     (case effective_filter server_attribute_filter of
        Some f \<Rightarrow> 1000000
      | None \<Rightarrow> feature_count layer)"

text \<open>
  What the session does before the first advance of the cursor: under a filter it sets
  the filter and skips the count query; otherwise it asks for the count. Then it reports
  the spatial reference \<open>wkt\<close>.
\<close>

definition session_events ::
  "('v, 'g) layer \<Rightarrow> string option \<Rightarrow> string \<Rightarrow> ('v, 'g, 'j) event list"
where
  "session_events layer server_attribute_filter wkt =
     (case effective_filter server_attribute_filter of
        Some f \<Rightarrow> [SetAttributeFilter f, Stderr Features_unknown]
      | None \<Rightarrow> [GetFeatureCount, Stderr (Features (feature_count layer))]) @
     [Stderr (SR wkt)]"

section \<open>The records of a feature in the words of the specification\<close>


text \<open>
  NDJSON: the standard output that a list of records makes, each record one completed
  \<^verbatim>\<open>json.dump\<close> of a geometry dict with its \<^verbatim>\<open>properties\<close>, followed by exactly one
  newline.
\<close>

definition ndjson :: "('j \<times> 'v attrs) list \<Rightarrow> ('v, 'j) out list" where
  "ndjson recs = concat (map (\<lambda>(d, a). [Json d a, Newline]) recs)"



text \<open>The warnings about a skipped geometry (line 138) in a trace, in their order.\<close>

fun is_skip :: "('v, 'g) diag \<Rightarrow> bool" where
  "is_skip (Skipping_empty_geom name feat attributes) = True"
| "is_skip _ = False"

definition skipped :: "('v, 'g, 'j) event list \<Rightarrow> ('v, 'g) diag list" where
  "skipped evs = filter is_skip (stderr_of evs)"


section \<open>The estimated count in the words of the specification\<close>

text \<open>A trace without its progress lines.\<close>

fun is_progress :: "('v, 'g, 'j) event \<Rightarrow> bool" where
  "is_progress (Stderr (Progress n k)) = True"
| "is_progress _ = False"

definition without_progress :: "('v, 'g, 'j) event list \<Rightarrow> ('v, 'g, 'j) event list" where
  "without_progress evs = filter (\<lambda>ev. \<not> is_progress ev) evs"

text \<open>
  Two pieces of a run are the same but for the progress display: they end the same way
  and their events agree once the progress lines are left out.
\<close>

definition same_run :: "('v, 'g, 'j, 'a) run \<Rightarrow> ('v, 'g, 'j, 'a) run \<Rightarrow> bool" where
  "same_run m1 m2 \<longleftrightarrow> snd m1 = snd m2 \<and> without_progress (fst m1) = without_progress (fst m2)"

section \<open>Example data\<close>

text \<open>
  A library whose geometry dict is the geometry itself and whose \<^verbatim>\<open>json.dump\<close> never
  raises, and a feature with one integer attribute \<^verbatim>\<open>id\<close> and one geometry field
  \<^verbatim>\<open>geom\<close>.
\<close>

definition example_library :: "(int, int, int) library" where
  "example_library = \<lparr> geo_mapping = Inr, json_dump = (\<lambda>d a. None) \<rparr>"

definition example_feature :: "int \<Rightarrow> int option \<Rightarrow> (int, int) feature" where
  "example_feature v g =
     ogr_feature [((''id'', ''Integer''), v)] [((''geom'', Some ''EPSG:3067''), g)]"

text \<open>A layer \<^verbatim>\<open>parcels\<close> whose cursor gives a feature, one exception and a second feature.\<close>

definition example_layer :: "(int, int) layer" where
  "example_layer =
     \<lparr> lname = ''parcels'', lsrs = Some ''EPSG:3067'', feature_count = 2,
       features = (\<lambda>filt. [Returns (Some (example_feature 1 (Some 10))),
                            Raises (LibraryError 7),
                            Returns (Some (example_feature 2 None))]) \<rparr>"

definition example_open :: "string \<Rightarrow> (int, int) layer list option" where
  "example_open url = (if url = ''http://example.org/wfs'' then Some [example_layer] else None)"

text \<open>A feature with two geometry fields, both set.\<close>

definition two_geometries :: "(int, int) feature" where
  "two_geometries =
     ogr_feature [((''id'', ''Integer''), 7)]
       [((''geom'', Some ''EPSG:3067''), Some 10), ((''centroid'', Some ''EPSG:3067''), Some 11)]"



text \<open>
  A layer for which \<^verbatim>\<open>GetFeatureCount()\<close> answers 0 and whose cursor then delivers 10,001
  features, with or without a filter.
\<close>

definition zero_count_layer :: "(int, int) layer" where
  "zero_count_layer =
     \<lparr> lname = ''growing'', lsrs = Some ''EPSG:3067'', feature_count = 0,
       features = (\<lambda>filt. replicate 10001 (Returns (Some (example_feature 1 (Some 10))))) \<rparr>"

definition zero_count_open :: "string \<Rightarrow> (int, int) layer list option" where
  "zero_count_open url = Some [zero_count_layer]"








lemma seq_ok [simp]: "seq (ok a) f = f a"
  by (cases "f a") (simp add: seq_def ok_def)

lemma seq_raise [simp]: "seq (raise e) f = raise e"
  by (simp add: seq_def raise_def)

lemma seq_emit [simp]: "seq (emit ev) f = prepend [ev] (f ())"
  by (simp add: seq_def emit_def)

lemma seq_lift_Inr [simp]: "seq (lift (Inr a)) f = f a"
  by (cases "f a") (simp add: seq_def lift_def)

lemma seq_lift_Inl [simp]: "seq (lift (Inl e)) f = raise e"
  by (simp add: seq_def lift_def raise_def)

lemma seq_pair_Inl [simp]: "seq (evs, Inl e) f = (evs, Inl e)"
  by (simp add: seq_def)

lemma seq_pair_Inr [simp]: "seq (evs, Inr a) f = prepend evs (f a)"
  by (simp add: seq_def)

lemma prepend_Nil [simp]: "prepend [] m = m"
  by (cases m) simp

lemma prepend_prepend [simp]: "prepend xs (prepend ys m) = prepend (xs @ ys) m"
  by (cases m) simp

lemma fst_prepend [simp]: "fst (prepend xs m) = xs @ fst m"
  by (cases m) simp

lemma snd_prepend [simp]: "snd (prepend xs m) = snd m"
  by (cases m) simp

lemma prepend_ok [simp]: "prepend xs (ok a) = (xs, Inr a)"
  by (simp add: ok_def)

lemma prepend_raise [simp]: "prepend xs (raise e) = (xs, Inl e)"
  by (simp add: raise_def)

lemma seq_prepend [simp]: "seq (prepend xs m) f = prepend xs (seq m f)"
  by (cases m; cases "snd m") (auto simp: seq_def)

declare loop.simps [simp del]

lemma loop_Cons:
  "loop body num st (r # rs) =
     (case iteration body num st r of
        (evs, Inl e) \<Rightarrow> (evs, Inl e)
      | (evs, Inr (Break why)) \<Rightarrow> (evs, Inr (why, st))
      | (evs, Inr (Next st')) \<Rightarrow> prepend evs (loop body num st' rs))"
  by (subst loop.simps) simp

lemma loop_Nil:
  "loop body num st [] =
     (case iteration body num st (Returns None) of
        (evs, Inl e) \<Rightarrow> (evs, Inl e)
      | (evs, Inr (Break why)) \<Rightarrow> (evs, Inr (why, st))
      | (evs, Inr (Next st')) \<Rightarrow> prepend evs (loop body num st' []))"
  by (subst loop.simps) simp

lemma state_after_Cons:
  assumes "state_after body num st (r # rs) = Some (evs, st')"
  shows "\<exists>evs1 st1 evs2. iteration body num st r = (evs1, Inr (Next st1)) \<and>
           state_after body num st1 rs = Some (evs2, st') \<and> evs = evs1 @ evs2"
proof -
  obtain a b where ab: "iteration body num st r = (a, b)"
    by (cases "iteration body num st r") simp
  show ?thesis
  proof (cases b)
    case (Inl e)
    with ab assms show ?thesis by simp
  next
    case (Inr c)
    show ?thesis
    proof (cases c)
      case (Break why)
      with ab Inr assms show ?thesis by simp
    next
      case (Next st1)
      show ?thesis
      proof (cases "state_after body num st1 rs")
        case None
        with ab Inr Next assms show ?thesis by simp
      next
        case (Some p)
        obtain evs2 st2 where p: "p = (evs2, st2)" by (cases p) simp
        with ab Inr Next Some assms show ?thesis by simp
      qed
    qed
  qed
qed

lemma loop_prefix:
  "state_after body num st rs = Some (evs, st') \<Longrightarrow>
     loop body num st (rs @ rest) = prepend evs (loop body num st' rest)"
proof (induction rs arbitrary: st evs)
  case Nil
  then show ?case by simp
next
  case (Cons r rs)
  from state_after_Cons [OF Cons.prems] obtain evs1 st1 evs2 where
    it: "iteration body num st r = (evs1, Inr (Next st1))" and
    sa: "state_after body num st1 rs = Some (evs2, st')" and
    e: "evs = evs1 @ evs2"
    by blast
  from Cons.IH [OF sa] it e show ?case
    by (simp add: loop_Cons)
qed

lemma timing_of_append [simp]: "timing_of (xs @ ys) = timing_of xs @ timing_of ys"
  by (induction xs rule: timing_of.induct) auto

lemma sleeps_of_append [simp]: "sleeps_of (xs @ ys) = sleeps_of xs @ sleeps_of ys"
  by (induction xs rule: sleeps_of.induct) auto

lemma fetches_of_append [simp]: "fetches_of (xs @ ys) = fetches_of xs + fetches_of ys"
  by (induction xs rule: fetches_of.induct) auto

lemma stdout_of_append [simp]: "stdout_of (xs @ ys) = stdout_of xs @ stdout_of ys"
  by (induction xs rule: stdout_of.induct) auto

lemma stderr_of_append [simp]: "stderr_of (xs @ ys) = stderr_of xs @ stderr_of ys"
  by (induction xs rule: stderr_of.induct) auto

text \<open>A failed advance below the cap: one traceback, one message, one sleep.\<close>

lemma iteration_failure_retry:
  assumes "is_failure r" and "backoff st < 3"
  shows "\<exists>ex. iteration body num st r =
           ([Fetch, Stderr (Traceback ex), Stderr (Trying_again (2 ^ backoff st) (backoff st)),
             Sleep (2 ^ backoff st)],
            Inr (Next (st\<lparr>backoff := Suc (backoff st)\<rparr>)))"
  using assms by (cases r rule: is_failure.cases) (auto simp: iteration_def handler_def)

lemma iteration_failure_abort:
  assumes "is_failure r" and "3 \<le> backoff st"
  shows "\<exists>ex. iteration body num st r =
           ([Fetch, Stderr (Traceback ex), Stderr (Maximum_retries (backoff st))],
            Inr (Break ABORTED))"
  using assms by (cases r rule: is_failure.cases) (auto simp: iteration_def handler_def)


lemma retries_numeral [simp]:
  "retries b (numeral k) = Fetch # Sleep (2 ^ b) # retries (Suc b) (pred_numeral k)"
  by (simp add: numeral_eq_Suc)

lemma sleeps_of_timing [simp]: "sleeps_of (timing_of evs) = sleeps_of evs"
  by (induction evs rule: timing_of.induct) auto

lemma fetches_of_timing [simp]: "fetches_of (timing_of evs) = fetches_of evs"
  by (induction evs rule: timing_of.induct) auto

lemma failures_below_cap:
  assumes "list_all is_failure fs" and "backoff st + length fs \<le> 3"
  shows "\<exists>evs. state_after body num st fs = Some (evs, st\<lparr>backoff := backoff st + length fs\<rparr>) \<and>
           timing_of evs = retries (backoff st) (length fs) \<and>
           stdout_of evs = []"
  using assms
proof (induction fs arbitrary: st)
  case Nil
  then show ?case by simp
next
  case (Cons r fs)
  from Cons.prems have r: "is_failure r" and b: "backoff st < 3" by simp_all
  from iteration_failure_retry [OF r b, of body num] obtain ex where
    it: "iteration body num st r =
           ([Fetch, Stderr (Traceback ex), Stderr (Trying_again (2 ^ backoff st) (backoff st)),
             Sleep (2 ^ backoff st)],
            Inr (Next (st\<lparr>backoff := Suc (backoff st)\<rparr>)))"
    by blast
  let ?st1 = "st\<lparr>backoff := Suc (backoff st)\<rparr>"
  from Cons.prems have "list_all is_failure fs" and "backoff ?st1 + length fs \<le> 3"
    by simp_all
  from Cons.IH [OF this] obtain evs where
    sa: "state_after body num ?st1 fs = Some (evs, ?st1\<lparr>backoff := backoff ?st1 + length fs\<rparr>)" and
    tm: "timing_of evs = retries (backoff ?st1) (length fs)" and
    so: "stdout_of evs = []"
    by blast
  show ?case
    using it sa tm so by simp
qed

text \<open>
  Claim C2. From backoff level 0, a run of \<open>N \<ge> 1\<close> consecutive failed advances of the
  cursor (an exception or \<^verbatim>\<open>None\<close>) costs exactly \<open>min N 4\<close> calls of
  \<^verbatim>\<open>GetNextFeature\<close>, with sleeps of 1, 2 and 4 time units between successive calls; on
  the fourth failure the loop is left (\<open>ABORTED\<close>) without another sleep, and whatever
  the cursor would have answered next is never asked for. With fewer than four failures
  the loop goes on with the rest of the cursor.
\<close>

theorem backoff_bound:
  assumes "backoff st = 0" and "fs \<noteq> []" and "list_all is_failure fs"
  shows "\<exists>evs. timing_of evs = backoff_schedule (length fs) \<and>
           fetches_of evs = min (length fs) 4 \<and>
           sleeps_of evs = take (length fs) [1, 2, 4] \<and>
           loop body num st (fs @ rest) =
             (if 4 \<le> length fs then (evs, Inr (ABORTED, st\<lparr>backoff := 3\<rparr>))
              else prepend evs (loop body num (st\<lparr>backoff := length fs\<rparr>) rest))"
proof (cases "4 \<le> length fs")
  case False
  then have le: "backoff st + length fs \<le> 3" using assms(1) by simp
  from failures_below_cap [OF assms(3) le, of body num] assms(1) obtain evs where
    sa: "state_after body num st fs = Some (evs, st\<lparr>backoff := length fs\<rparr>)" and
    tm: "timing_of evs = retries 0 (length fs)"
    by auto
  have sched: "timing_of evs = backoff_schedule (length fs)"
    using False tm by (simp add: backoff_schedule_def min_def)
  have "0 < length fs" using assms(2) by simp
  with False have "length fs = 1 \<or> length fs = 2 \<or> length fs = 3"
    by arith
  then have counts: "fetches_of (backoff_schedule (length fs) :: ('a, 'b, 'c) event list) = min (length fs) 4 \<and>
                 sleeps_of (backoff_schedule (length fs) :: ('a, 'b, 'c) event list) = take (length fs) [1, 2, 4]"
    by (auto simp: backoff_schedule_def numeral_2_eq_2 numeral_3_eq_3)
  have f: "fetches_of evs = min (length fs) 4"
    using counts sched fetches_of_timing [of evs] by simp
  have sl: "sleeps_of evs = take (length fs) [1, 2, 4]"
    using counts sched sleeps_of_timing [of evs] by simp
  from loop_prefix [OF sa, of rest] sched f sl False show ?thesis
    by auto
next
  case True
  let ?pre = "take 3 fs"
  have pre: "list_all is_failure ?pre" and len: "length ?pre = 3"
    using assms(3) True by (auto simp: list_all_iff dest: in_set_takeD)
  have le: "backoff st + length ?pre \<le> 3" using assms(1) len by simp
  from failures_below_cap [OF pre le, of body num] assms(1) len obtain evs3 where
    sa: "state_after body num st ?pre = Some (evs3, st\<lparr>backoff := 3\<rparr>)" and
    tm: "timing_of evs3 = retries 0 3"
    by auto
  obtain r more where dr: "drop 3 fs = r # more"
    using True by (cases "drop 3 fs") auto
  have r: "is_failure r"
    using assms(3) dr by (metis in_set_dropD list.set_intros(1) list_all_iff)
  let ?st3 = "st\<lparr>backoff := 3\<rparr>"
  from iteration_failure_abort [OF r, of ?st3 body num] obtain ex where
    it: "iteration body num ?st3 r =
           ([Fetch, Stderr (Traceback ex), Stderr (Maximum_retries 3)], Inr (Break ABORTED))"
    by auto
  have split: "fs @ rest = ?pre @ (r # (more @ rest))"
    using dr by (metis append_Cons append_assoc append_take_drop_id)
  let ?evs = "evs3 @ [Fetch, Stderr (Traceback ex), Stderr (Maximum_retries 3)]"
  have run: "loop body num st (fs @ rest) = (?evs, Inr (ABORTED, ?st3))"
    using loop_prefix [OF sa, of "r # (more @ rest)"] it by (simp add: split loop_Cons)
  have sched: "timing_of ?evs = backoff_schedule (length fs)"
    using True tm by (simp add: backoff_schedule_def min_def)
  have counts: "fetches_of (timing_of ?evs) = 4 \<and> sleeps_of (timing_of ?evs) = [1, 2, 4]"
    using tm by (simp add: numeral_3_eq_3)
  have "fetches_of ?evs = min (length fs) 4" "sleeps_of ?evs = take (length fs) [1, 2, 4]"
    using counts True unfolding fetches_of_timing sleeps_of_timing by (simp_all add: min_def)
  with sched run True show ?thesis
    by (intro exI [of _ ?evs]) simp
qed


theorem backoff_bound_witness:
  "backoff initial = 0 \<and>
   [Returns None, Raises (LibraryError 7), Returns None, Returns None] \<noteq> ([] :: (int, int) outcome list) \<and>
   list_all is_failure [Returns None, Raises (LibraryError 7), Returns None, Returns None :: (int, int) outcome] \<and>
   (\<exists>evs :: (int, int, int) event list.
      timing_of evs = [Fetch, Sleep 1, Fetch, Sleep 2, Fetch, Sleep 4, Fetch] \<and>
      fetches_of evs = 4 \<and> sleeps_of evs = [1, 2, 4] \<and>
      loop (\<lambda>_. ok ()) 5 initial [Returns None, Raises (LibraryError 7), Returns None, Returns None] =
        (evs, Inr (ABORTED, initial\<lparr>backoff := 3\<rparr>)))"
  using backoff_bound [of initial "[Returns None, Raises (LibraryError 7), Returns None, Returns None]"
      "\<lambda>_. ok ()" 5 "[]"]
  by (auto simp: initial_def backoff_schedule_def)

lemma state_after_append:
  "state_after body num st (xs @ ys) =
     (case state_after body num st xs of
        None \<Rightarrow> None
      | Some (e1, st1) \<Rightarrow>
          (case state_after body num st1 ys of
             None \<Rightarrow> None
           | Some (e2, st2) \<Rightarrow> Some (e1 @ e2, st2)))"
proof (induction xs arbitrary: st)
  case Nil
  show ?case by (simp split: option.splits)
next
  case (Cons x xs)
  obtain a b where ab: "iteration body num st x = (a, b)"
    by (cases "iteration body num st x") simp
  show ?case
  proof (cases b)
    case (Inl e)
    with ab show ?thesis by simp
  next
    case (Inr c)
    show ?thesis
    proof (cases c)
      case (Break why)
      with ab Inr show ?thesis by simp
    next
      case (Next st1)
      with ab Inr Cons.IH [of st1] show ?thesis
        by (simp split: option.splits)
    qed
  qed
qed

lemma state_after_snoc:
  assumes "state_after body num st (rs @ [r]) = Some (evs, st')"
  shows "\<exists>e1 st1 e2. state_after body num st rs = Some (e1, st1) \<and>
           iteration body num st1 r = (e2, Inr (Next st')) \<and> evs = e1 @ e2"
proof -
  from assms obtain e1 st1 e2 where
    a: "state_after body num st rs = Some (e1, st1)" and
    b: "state_after body num st1 [r] = Some (e2, st')" and
    c: "evs = e1 @ e2"
    by (auto simp: state_after_append split: option.splits)
  from state_after_Cons [OF b] have "iteration body num st1 r = (e2, Inr (Next st'))"
    by auto
  with a c show ?thesis by blast
qed

text \<open>What a pass through the loop does to the backoff level.\<close>

lemma iteration_backoff:
  assumes "iteration body num st r = (evs, Inr (Next st'))"
  shows "backoff st' = (if is_failure r then Suc (backoff st) else 0)"
proof (cases r)
  case (Raises ex)
  with assms show ?thesis
    by (auto simp: iteration_def handler_def split: if_splits)
next
  case (Returns x)
  show ?thesis
  proof (cases x)
    case None
    with Returns assms show ?thesis
      by (auto simp: iteration_def handler_def split: if_splits)
  next
    case (Some feat)
    with Returns assms show ?thesis
      by (auto simp: iteration_def after_try_def yield_feature_def seq_def ok_def raise_def
               split: sum.splits option.splits if_splits prod.splits)
  qed
qed


lemma backoff_invariant:
  "state_after body num st rs = Some (evs, st') \<Longrightarrow> backoff st = 0 \<Longrightarrow>
     backoff st' = length (takeWhile is_failure (rev rs))"
proof (induction rs arbitrary: evs st' rule: rev_induct)
  case Nil
  then show ?case by simp
next
  case (snoc r rs)
  from state_after_snoc [OF snoc.prems(1)] obtain e1 st1 e2 where
    a: "state_after body num st rs = Some (e1, st1)" and
    b: "iteration body num st1 r = (e2, Inr (Next st'))"
    by blast
  from snoc.IH [OF a snoc.prems(2)] iteration_backoff [OF b] show ?case
    by simp
qed

lemma sleeps_of_retries:
  "n \<le> 3 \<Longrightarrow> sleeps_of (retries 0 n :: ('v, 'g, 'j) event list) = take n [1, 2, 4]"
proof -
  assume "n \<le> 3"
  then have "n = 0 \<or> n = 1 \<or> n = 2 \<or> n = 3" by arith
  then show ?thesis by auto
qed

lemmas run_defs =
  iteration_def handler_def after_try_def yield_feature_def capture_schema_def read_attrs_def read_g_attrs_def
  report_progress_def dict_of_def ogr_feature_def initial_def print_body_def

text \<open>
  Claim C7. At the head of the loop the backoff level is the number of consecutive
  failures since the last successful advance (or since the start). Every successful
  advance leaves the level at 0, and from level 0 the next failures are again followed by
  sleeps of 1, 2, 4.
\<close>

theorem backoff_reset:
  assumes "state_after body num initial rs = Some (evs, st)"
  shows "backoff st = length (takeWhile is_failure (rev rs)) \<and>
         (\<forall>feat evs' st'.
            iteration body num st (Returns (Some feat)) = (evs', Inr (Next st')) \<longrightarrow>
            backoff st' = 0) \<and>
         (\<forall>fs. backoff st = 0 \<and> list_all is_failure fs \<and> length fs \<le> 3 \<longrightarrow>
            (\<exists>evs'. state_after body num initial (rs @ fs) =
                       Some (evs @ evs', st\<lparr>backoff := length fs\<rparr>) \<and>
                     sleeps_of evs' = take (length fs) [1, 2, 4]))"
proof (intro conjI allI impI)
  show "backoff st = length (takeWhile is_failure (rev rs))"
    using backoff_invariant [OF assms] by (simp add: initial_def)
next
  fix feat evs' st'
  assume "iteration body num st (Returns (Some feat)) = (evs', Inr (Next st'))"
  from iteration_backoff [OF this] show "backoff st' = 0" by simp
next
  fix fs :: "('a, 'b) outcome list"
  assume h: "backoff st = 0 \<and> list_all is_failure fs \<and> length fs \<le> 3"
  then have "list_all is_failure fs" and "backoff st + length fs \<le> 3" by simp_all
  from failures_below_cap [OF this, of body num] h obtain evs' where
    sa: "state_after body num st fs = Some (evs', st\<lparr>backoff := length fs\<rparr>)" and
    tm: "timing_of evs' = retries 0 (length fs)"
    by auto
  have "sleeps_of evs' = sleeps_of (timing_of evs')" by simp
  also have "\<dots> = sleeps_of (retries 0 (length fs) :: ('a, 'b, 'c) event list)"
    by (simp only: tm)
  also have "\<dots> = take (length fs) [1, 2, 4]"
    using h by (intro sleeps_of_retries) simp
  finally have "sleeps_of evs' = take (length fs) [1, 2, 4]" .
  with sa assms show "\<exists>evs'. state_after body num initial (rs @ fs) =
                        Some (evs @ evs', st\<lparr>backoff := length fs\<rparr>) \<and>
                      sleeps_of evs' = take (length fs) [1, 2, 4]"
    by (simp add: state_after_append)
qed

theorem backoff_reset_witness:
  "\<exists>(evs :: (int, int, int) event list) st.
     state_after (\<lambda>_. ok ()) 5 initial
       [Returns None, Raises (LibraryError 7), Returns (Some (ogr_feature [] []))] = Some (evs, st) \<and>
     backoff st = 0 \<and>
     (\<exists>evs'. state_after (\<lambda>_. ok ()) 5 initial
        ([Returns None, Raises (LibraryError 7), Returns (Some (ogr_feature [] []))] @
         [Raises (LibraryError 8), Returns None, Returns None]) =
          Some (evs @ evs', st\<lparr>backoff := 3\<rparr>) \<and>
        sleeps_of evs' = [1, 2, 4])"
proof -
  let ?rs = "[Returns None, Raises (LibraryError 7), Returns (Some (ogr_feature [] []))] :: (int, int) outcome list"
  let ?fs = "[Raises (LibraryError 8), Returns None, Returns None] :: (int, int) outcome list"
  let ?body = "(\<lambda>_. ok ()) :: (int, int) feature \<times> int attrs \<times> (string \<times> int option) list \<Rightarrow> (int, int, int, unit) run"
  have "\<exists>evs st. state_after ?body 5 initial ?rs = Some (evs, st)"
    by (simp add: run_defs)
  then obtain evs st where sa: "state_after ?body 5 initial ?rs = Some (evs, st)"
    by blast
  have fs: "backoff st = 0 \<and> list_all is_failure ?fs \<and> length ?fs \<le> 3"
    using backoff_reset [OF sa] by simp
  from backoff_reset [OF sa] fs have
    "\<exists>evs'. state_after ?body 5 initial (?rs @ ?fs) = Some (evs @ evs', st\<lparr>backoff := length ?fs\<rparr>) \<and>
            sleeps_of evs' = take (length ?fs) [1, 2, 4]"
    by blast
  with sa fs show ?thesis by auto
qed


section \<open>Facts about sequencing\<close>


lemma seq_eq_Inr:
  "seq m f = (evs, Inr b) \<longleftrightarrow>
     (\<exists>e1 a e2. m = (e1, Inr a) \<and> f a = (e2, Inr b) \<and> evs = e1 @ e2)"
proof (cases m)
  case (Pair e1 r)
  show ?thesis
  proof (cases r)
    case (Inl e)
    with Pair show ?thesis by simp
  next
    case (Inr a)
    with Pair show ?thesis by (cases "f a") auto
  qed
qed


section \<open>Facts about one pass through the loop\<close>

lemma iteration_success:
  "iteration body num st (Returns (Some f)) =
     prepend [Fetch] (after_try body num (st\<lparr>backoff := 0\<rparr>) (Some f))"
  by (simp add: iteration_def)




lemma prepend_eq:
  "prepend xs m = (evs, r) \<longleftrightarrow> (\<exists>e. m = (e, r) \<and> evs = xs @ e)"
  by (cases m) auto


lemma yield_feature_Next:
  "yield_feature body num st f names gnames = (evs, Inr c) \<Longrightarrow>
     c = Next (st\<lparr>n_features := Suc (n_features st), schema := Some (names, gnames)\<rparr>)"
  by (auto simp: yield_feature_def seq_eq_Inr ok_def)

lemma after_try_Some_Next:
  assumes "after_try body num st (Some f) = (evs, Inr c)"
  shows "\<exists>st'. c = Next st'"
proof -
  from assms obtain e1 sch e2 where
    c: "(case sch of None \<Rightarrow> raise UnboundLocalError
         | Some (names, gnames) \<Rightarrow> yield_feature body num st f names gnames) = (e2, Inr c)"
    unfolding after_try_def by (auto simp: seq_eq_Inr)
  show ?thesis
  proof (cases sch)
    case None
    with c show ?thesis by (simp add: raise_def)
  next
    case (Some p)
    obtain names gnames where "p = (names, gnames)" by (cases p) simp
    with Some c yield_feature_Next show ?thesis by fastforce
  qed
qed


lemma iteration_not_exhausted:
  "iteration body num st r \<noteq> (evs, Inr (Break EXHAUSTED))"
proof (cases "is_failure r")
  case True
  show ?thesis
  proof (cases "backoff st < 3")
    case True
    from iteration_failure_retry [OF \<open>is_failure r\<close> True, of body num] show ?thesis by auto
  next
    case False
    then have "3 \<le> backoff st" by simp
    from iteration_failure_abort [OF \<open>is_failure r\<close> this, of body num] show ?thesis by auto
  qed
next
  case False
  then obtain f where r: "r = Returns (Some f)"
    by (cases r rule: is_failure.cases) auto
  show ?thesis
  proof
    assume a: "iteration body num st r = (evs, Inr (Break EXHAUSTED))"
    obtain e2 c where at: "after_try body num (st\<lparr>backoff := 0\<rparr>) (Some f) = (e2, c)"
      by (cases "after_try body num (st\<lparr>backoff := 0\<rparr>) (Some f)") simp
    with a r have "c = Inr (Break EXHAUSTED)" by (simp add: iteration_success)
    with at after_try_Some_Next [of body num "st\<lparr>backoff := 0\<rparr>" f e2 "Break EXHAUSTED"]
    show False by simp
  qed
qed

lemma loop_never_exhausted:
  "loop body num st cur = (evs, Inr (why, st')) \<Longrightarrow> why = ABORTED"
proof (induction body num st cur arbitrary: evs rule: loop.induct)
  case (1 body num st cur)
  obtain e1 y where it: "iteration body num st (fst (GetNextFeature cur)) = (e1, y)"
    by (cases "iteration body num st (fst (GetNextFeature cur))") simp
  show ?case
  proof (cases y)
    case (Inl e)
    with it "1.prems" show ?thesis by (subst (asm) loop.simps) simp
  next
    case (Inr c)
    show ?thesis
    proof (cases c)
      case (Break w)
      with it Inr iteration_not_exhausted [of body num st "fst (GetNextFeature cur)" e1]
      have "w = ABORTED" by (cases w) auto
      with it Inr Break "1.prems" show ?thesis by (subst (asm) loop.simps) simp
    next
      case (Next st1)
      obtain e2 z where l: "loop body num st1 (snd (GetNextFeature cur)) = (e2, z)"
        by (cases "loop body num st1 (snd (GetNextFeature cur))") simp
      with it Inr Next "1.prems" have "z = Inr (why, st')"
        by (subst (asm) loop.simps) simp
      with l "1.IH" [OF it [symmetric] Inr Next] show ?thesis by simp
    qed
  qed
qed


section \<open>The schema cache\<close>






lemmas example_defs = example_library_def example_feature_def example_layer_def example_open_def
  two_geometries_def


section \<open>The end of the data\<close>

lemma get_features_found:
  assumes "find (\<lambda>l. lname l = name) ds = Some layer" and "lsrs layer = Some wkt"
  shows "get_features body ds name filt =
           prepend (session_events layer filt wkt)
             (seq (loop body (estimated_count layer filt) initial
                     (features layer (effective_filter filt)))
                  (\<lambda>(why, st).
                     ([Stderr Finished, Stderr (Final_count (n_features st))], Inr why)))"
proof -
  have tail: "(\<lambda>(why, st). seq (emit (Stderr Finished)) (\<lambda>_.
                 seq (emit (Stderr (Final_count (n_features st)))) (\<lambda>_. ok why))) =
        (\<lambda>(why :: exit_reason, st).
           ([Stderr Finished, Stderr (Final_count (n_features st)) :: ('a, 'b, 'c) event], Inr why))"
    by (simp add: fun_eq_iff)
  show ?thesis
    using assms
    by (cases "effective_filter filt")
       (simp_all add: get_features_def estimated_count_def session_events_def tail)
qed

lemma get_features_Inr:
  assumes "get_features body ds name filt = (evs, Inr why)"
  shows "\<exists>layer wkt e st.
           find (\<lambda>l. lname l = name) ds = Some layer \<and> lsrs layer = Some wkt \<and>
           loop body (estimated_count layer filt) initial
             (features layer (effective_filter filt)) = (e, Inr (why, st)) \<and>
           evs = session_events layer filt wkt @ e @
                 [Stderr Finished, Stderr (Final_count (n_features st))]"
proof (cases "find (\<lambda>l. lname l = name) ds")
  case None
  with assms show ?thesis by (simp add: get_features_def raise_def)
next
  case (Some layer)
  show ?thesis
  proof (cases "lsrs layer")
    case None
    with Some assms show ?thesis
      by (cases "effective_filter filt") (simp_all add: get_features_def raise_def)
  next
    case (Some wkt)
    from assms [unfolded get_features_found [OF \<open>find (\<lambda>l. lname l = name) ds = Some layer\<close> Some]]
    show ?thesis
      using \<open>find (\<lambda>l. lname l = name) ds = Some layer\<close> Some
      by (auto simp: prepend_eq seq_eq_Inr)
  qed
qed

text \<open>
  Claim C3, as the code has it. The cursor has one way to report the end of the data, a
  \<^verbatim>\<open>None\<close>, and the loop treats every \<^verbatim>\<open>None\<close> as a failure: below the cap it sleeps
  \<open>2 ^ backoff\<close> and asks again, at the cap it leaves the loop as \<open>ABORTED\<close>. The loop is
  never left as \<open>EXHAUSTED\<close>. Whenever the generator returns, it was left as \<open>ABORTED\<close> and
  its last two messages are the final summary.
\<close>

theorem end_of_data_is_retried:
  "iteration body num st (Returns None) =
     (if 3 \<le> backoff st
      then ([Fetch, Stderr (Traceback (OutOfData (backoff st))),
             Stderr (Maximum_retries (backoff st))],
            Inr (Break ABORTED))
      else ([Fetch, Stderr (Traceback (OutOfData (backoff st))),
             Stderr (Trying_again (2 ^ backoff st) (backoff st)),
             Sleep (2 ^ backoff st)],
            Inr (Next (st\<lparr>backoff := backoff st + 1\<rparr>)))) \<and>
   loop body num st cur \<noteq> (evs, Inr (EXHAUSTED, st')) \<and>
   (get_features body wfs_ds layer_name server_attribute_filter = (evs, Inr why) \<longrightarrow>
      why = ABORTED \<and>
      (\<exists>pre n. evs = pre @ [Stderr Finished, Stderr (Final_count n)]))"
proof (intro conjI impI)
  show "iteration body num st (Returns None) =
     (if 3 \<le> backoff st
      then ([Fetch, Stderr (Traceback (OutOfData (backoff st))),
             Stderr (Maximum_retries (backoff st))],
            Inr (Break ABORTED))
      else ([Fetch, Stderr (Traceback (OutOfData (backoff st))),
             Stderr (Trying_again (2 ^ backoff st) (backoff st)),
             Sleep (2 ^ backoff st)],
            Inr (Next (st\<lparr>backoff := backoff st + 1\<rparr>))))"
    by (simp add: iteration_def handler_def)
next
  show "loop body num st cur \<noteq> (evs, Inr (EXHAUSTED, st'))"
    using loop_never_exhausted [of body num st cur evs EXHAUSTED st'] by auto
next
  assume a: "get_features body wfs_ds layer_name server_attribute_filter = (evs, Inr why)"
  from get_features_Inr [OF a] obtain layer wkt e st1 where
    l: "loop body (estimated_count layer server_attribute_filter) initial
          (features layer (effective_filter server_attribute_filter)) = (e, Inr (why, st1))" and
    e: "evs = session_events layer server_attribute_filter wkt @ e @
              [Stderr Finished, Stderr (Final_count (n_features st1))]"
    by blast
  from loop_never_exhausted [OF l] show "why = ABORTED" .
  from e show "\<exists>pre n. evs = pre @ [Stderr Finished, Stderr (Final_count n)]"
    by (intro exI [of _ "session_events layer server_attribute_filter wkt @ e"]
              exI [of _ "n_features st1"]) simp
qed


theorem end_of_data_counterexample:
  "sleeps_of (fst (loop (print_body example_library) 1 initial
      [Returns (Some (example_feature 1 (Some 10)))])) = [1, 2, 4] \<and>
   fetches_of (fst (loop (print_body example_library) 1 initial
      [Returns (Some (example_feature 1 (Some 10)))])) = 5 \<and>
   snd (loop (print_body example_library) 1 initial
      [Returns (Some (example_feature 1 (Some 10)))]) =
     Inr (ABORTED, \<lparr>n_features = 1, backoff = 3, schema = Some ([''id''], [''geom''])\<rparr>)"
  by (simp add: loop_Cons loop_Nil run_defs example_defs)

theorem end_of_data_is_retried_witness:
  "\<exists>evs why.
     get_features (print_body example_library) [example_layer] ''parcels'' None = (evs, Inr why) \<and>
     why = ABORTED \<and> (\<exists>pre n. evs = pre @ [Stderr Finished, Stderr (Final_count n)])"
proof -
  have "\<exists>evs why. get_features (print_body example_library) [example_layer] ''parcels'' None =
          (evs, Inr why)"
    by (simp add: get_features_def effective_filter_def loop_Cons loop_Nil run_defs example_defs)
  then obtain evs why where
    g: "get_features (print_body example_library) [example_layer] ''parcels'' None = (evs, Inr why)"
    by blast
  from end_of_data_is_retried [of "print_body example_library" 0 initial "[]" evs initial
         "[example_layer]" "''parcels''" None why] g
  show ?thesis by blast
qed


section \<open>The exit status\<close>


lemma stdout_of_banner [simp]: "stdout_of (banner url name filt) = []"
  by (simp add: banner_def split: option.splits)

lemma stdout_of_session_events [simp]: "stdout_of (session_events layer filt wkt) = []"
  by (simp add: session_events_def split: option.splits)

lemma main_streaming:
  assumes "3 \<le> length argv" and "argv ! 2 \<noteq> []" and "Open (argv ! 1) = Some wfs_ds"
  shows "main L Open argv =
           (case print_features_geojson L wfs_ds (argv ! 2)
                   (if 3 < length argv then Some (argv ! 3) else None) of
              (evs, Inl e) \<Rightarrow>
                (banner (argv ! 1) (argv ! 2) (if 3 < length argv then Some (argv ! 3) else None) @
                 evs @ [Stderr (Uncaught e)], 1)
            | (evs, Inr why) \<Rightarrow>
                (banner (argv ! 1) (argv ! 2) (if 3 < length argv then Some (argv ! 3) else None) @
                 evs, 0))"
  using assms by (auto simp: main_def Let_def split: prod.splits sum.splits)







section \<open>The records of one feature\<close>







lemma print_geoms_all_null:
  "list_all (\<lambda>(n, g). g = None) gs \<Longrightarrow>
     print_geoms L feat a gs = (map (\<lambda>(n, g). Stderr (Skipping_empty_geom n feat a)) gs, Inr ())"
  by (induction gs) (auto simp: ok_def)


section \<open>The shape of a run\<close>





section \<open>No summary but at the end\<close>

lemma fst_seq:
  "fst (seq m f) = fst m @ (case snd m of Inl e \<Rightarrow> [] | Inr a \<Rightarrow> fst (f a))"
proof (cases m)
  case (Pair evs r)
  then show ?thesis by (cases r) simp_all
qed














section \<open>The estimated count\<close>

lemma snd_seq:
  "snd (seq m f) = (case snd m of Inl e \<Rightarrow> Inl e | Inr a \<Rightarrow> snd (f a))"
proof (cases m)
  case (Pair evs r)
  then show ?thesis by (cases r) simp_all
qed

lemma without_progress_append [simp]:
  "without_progress (xs @ ys) = without_progress xs @ without_progress ys"
  by (simp add: without_progress_def)

lemma same_run_refl [simp]: "same_run m m"
  by (simp add: same_run_def)

lemma same_run_seq:
  assumes "same_run m1 m2" and "\<And>a. same_run (f1 a) (f2 a)"
  shows "same_run (seq m1 f1) (seq m2 f2)"
  using assms by (auto simp: same_run_def fst_seq snd_seq split: sum.splits)

lemma same_run_prepend: "same_run m1 m2 \<Longrightarrow> same_run (prepend xs m1) (prepend xs m2)"
  by (simp add: same_run_def)

lemma report_progress_same:
  "num1 \<noteq> 0 \<Longrightarrow> num2 \<noteq> 0 \<Longrightarrow> same_run (report_progress num1 n) (report_progress num2 n)"
  by (simp add: same_run_def report_progress_def emit_def ok_def without_progress_def)

lemma yield_feature_same:
  "num1 \<noteq> 0 \<Longrightarrow> num2 \<noteq> 0 \<Longrightarrow>
     same_run (yield_feature body num1 st feat names gnames)
              (yield_feature body num2 st feat names gnames)"
  unfolding yield_feature_def
  by (intro same_run_seq same_run_refl report_progress_same)

lemma after_try_same:
  assumes "num1 \<noteq> 0" and "num2 \<noteq> 0"
  shows "same_run (after_try body num1 st feat) (after_try body num2 st feat)"
proof (cases feat)
  case None
  then show ?thesis by (simp add: after_try_def)
next
  case (Some f)
  have "same_run
          (case sch of None \<Rightarrow> raise UnboundLocalError
           | Some (names, gnames) \<Rightarrow> yield_feature body num1 st f names gnames)
          (case sch of None \<Rightarrow> raise UnboundLocalError
           | Some (names, gnames) \<Rightarrow> yield_feature body num2 st f names gnames)" for sch
    using yield_feature_same [OF assms] by (cases sch) auto
  with Some show ?thesis
    unfolding after_try_def by (auto intro!: same_run_seq)
qed

lemma iteration_same:
  assumes "num1 \<noteq> 0" and "num2 \<noteq> 0"
  shows "same_run (iteration body num1 st r) (iteration body num2 st r)"
proof (cases r)
  case (Raises ex)
  then show ?thesis by (simp add: iteration_def)
next
  case (Returns x)
  show ?thesis
  proof (cases x)
    case None
    with Returns show ?thesis by (simp add: iteration_def)
  next
    case (Some f)
    with Returns after_try_same [OF assms, of body "st\<lparr>backoff := 0\<rparr>" "Some f"]
    show ?thesis by (simp add: iteration_success same_run_prepend)
  qed
qed

lemma loop_same:
  assumes "num1 \<noteq> 0" and "num2 \<noteq> 0"
  shows "same_run (loop body num1 st cur) (loop body num2 st cur)"
  using assms(1)
proof (induction body num1 st cur rule: loop.induct)
  case (1 body num1 st cur)
  let ?r = "fst (GetNextFeature cur)"
  let ?c = "snd (GetNextFeature cur)"
  obtain e1 y where it1: "iteration body num1 st ?r = (e1, y)"
    by (cases "iteration body num1 st ?r") simp
  obtain e2 y2 where it2: "iteration body num2 st ?r = (e2, y2)"
    by (cases "iteration body num2 st ?r") simp
  from iteration_same [OF "1.prems" assms(2), of body st ?r] it1 it2
  have y2: "y2 = y" and ev: "without_progress e1 = without_progress e2"
    by (simp_all add: same_run_def)
  show ?case
  proof (cases y)
    case (Inl e)
    with it1 it2 y2 ev show ?thesis
      by (subst loop.simps, subst (2) loop.simps) (simp add: same_run_def)
  next
    case (Inr c)
    show ?thesis
    proof (cases c)
      case (Break w)
      with Inr it1 it2 y2 ev show ?thesis
        by (subst loop.simps, subst (2) loop.simps) (simp add: same_run_def)
    next
      case (Next st')
      from "1.IH" [OF it1 [symmetric] Inr Next "1.prems"]
      have "same_run (loop body num1 st' ?c) (loop body num2 st' ?c)" .
      with Next Inr it1 it2 y2 ev show ?thesis
        by (subst loop.simps, subst (2) loop.simps) (simp add: same_run_def)
    qed
  qed
qed

lemma stdout_of_without_progress [simp]: "stdout_of (without_progress evs) = stdout_of evs"
  unfolding without_progress_def by (induction evs rule: stdout_of.induct) auto

lemma sleeps_of_without_progress [simp]: "sleeps_of (without_progress evs) = sleeps_of evs"
  unfolding without_progress_def by (induction evs rule: sleeps_of.induct) auto

lemma fetches_of_without_progress [simp]: "fetches_of (without_progress evs) = fetches_of evs"
  unfolding without_progress_def by (induction evs rule: fetches_of.induct) auto

text \<open>
  Under a filter the count query is skipped and the estimate is 1,000,000; and any two
  estimates other than 0 give the same run but for the progress lines: the same standard
  output, the same cursor calls and sleeps, the same end.
\<close>

lemma estimate_is_cosmetic:
  "(effective_filter filt = Some f \<longrightarrow>
      estimated_count layer filt = 1000000 \<and>
      session_events layer filt wkt =
        [SetAttributeFilter f, Stderr Features_unknown, Stderr (SR wkt)]) \<and>
   (num1 \<noteq> 0 \<and> num2 \<noteq> 0 \<longrightarrow>
      same_run (loop body num1 st cur) (loop body num2 st cur) \<and>
      snd (loop body num1 st cur) = snd (loop body num2 st cur) \<and>
      stdout_of (fst (loop body num1 st cur)) = stdout_of (fst (loop body num2 st cur)) \<and>
      sleeps_of (fst (loop body num1 st cur)) = sleeps_of (fst (loop body num2 st cur)) \<and>
      fetches_of (fst (loop body num1 st cur)) = fetches_of (fst (loop body num2 st cur)))"
proof (intro conjI impI)
  assume "effective_filter filt = Some f"
  then show "estimated_count layer filt = 1000000"
    and "session_events layer filt wkt =
           [SetAttributeFilter f, Stderr Features_unknown, Stderr (SR wkt)]"
    by (simp_all add: estimated_count_def session_events_def)
next
  assume "num1 \<noteq> 0 \<and> num2 \<noteq> 0"
  then have s: "same_run (loop body num1 st cur) (loop body num2 st cur)"
    by (intro loop_same) simp_all
  then show "same_run (loop body num1 st cur) (loop body num2 st cur)" .
  from s show "snd (loop body num1 st cur) = snd (loop body num2 st cur)"
    by (simp add: same_run_def)
  from s have w: "without_progress (fst (loop body num1 st cur)) =
                  without_progress (fst (loop body num2 st cur))"
    by (simp add: same_run_def)
  from arg_cong [OF w, of stdout_of]
  show "stdout_of (fst (loop body num1 st cur)) = stdout_of (fst (loop body num2 st cur))"
    by simp
  from arg_cong [OF w, of sleeps_of]
  show "sleeps_of (fst (loop body num1 st cur)) = sleeps_of (fst (loop body num2 st cur))"
    by simp
  from arg_cong [OF w, of fetches_of]
  show "fetches_of (fst (loop body num1 st cur)) = fetches_of (fst (loop body num2 st cur))"
    by simp
qed

subsection \<open>A zero estimate\<close>

lemma example_first_pass:
  "iteration (print_body example_library) num initial
     (Returns (Some (example_feature 1 (Some 10)))) =
   ([Fetch, Stderr (First_feature [(''id'', ''Integer'', 1)]),
     Stderr (Geom_field ''geom'' ''EPSG:3067''),
     Stdout (Json 10 [(''id'', 1)]), Stdout Newline],
    Inr (Next \<lparr>n_features = 1, backoff = 0, schema = Some ([''id''], [''geom''])\<rparr>))"
  by (simp add: run_defs example_defs)

lemma example_pass:
  "0 < n \<Longrightarrow> Suc n mod 10000 \<noteq> 0 \<Longrightarrow>
     iteration (print_body example_library) num
       \<lparr>n_features = n, backoff = 0, schema = Some ([''id''], [''geom''])\<rparr>
       (Returns (Some (example_feature 1 (Some 10)))) =
     ([Fetch, Stdout (Json 10 [(''id'', 1)]), Stdout Newline],
      Inr (Next \<lparr>n_features = Suc n, backoff = 0, schema = Some ([''id''], [''geom''])\<rparr>))"
  by (simp add: run_defs example_defs)

lemma example_passes:
  "0 < n \<Longrightarrow> n + m < 10000 \<Longrightarrow>
     state_after (print_body example_library) num
       \<lparr>n_features = n, backoff = 0, schema = Some ([''id''], [''geom''])\<rparr>
       (replicate m (Returns (Some (example_feature 1 (Some 10))))) =
     Some (concat (replicate m [Fetch, Stdout (Json 10 [(''id'', 1)]), Stdout Newline]),
           \<lparr>n_features = n + m, backoff = 0, schema = Some ([''id''], [''geom''])\<rparr>)"
proof (induction m arbitrary: n)
  case 0
  show ?case by simp
next
  case (Suc m)
  from Suc.prems have "Suc n mod 10000 \<noteq> 0" by simp
  from example_pass [OF Suc.prems(1) this, of num] Suc.IH [of "Suc n"] Suc.prems
  show ?case by simp
qed

lemma example_pass_zero:
  "iteration (print_body example_library) 0
     \<lparr>n_features = 9999, backoff = 0, schema = Some ([''id''], [''geom''])\<rparr>
     (Returns (Some (example_feature 1 (Some 10)))) =
   ([Fetch, Stdout (Json 10 [(''id'', 1)]), Stdout Newline], Inl ZeroDivisionError)"
  by (simp add: run_defs example_defs)

lemma example_pass_progress:
  "num \<noteq> 0 \<Longrightarrow>
   iteration (print_body example_library) num
     \<lparr>n_features = 9999, backoff = 0, schema = Some ([''id''], [''geom''])\<rparr>
     (Returns (Some (example_feature 1 (Some 10)))) =
   ([Fetch, Stdout (Json 10 [(''id'', 1)]), Stdout Newline, Stderr (Progress 10000 num)],
    Inr (Next \<lparr>n_features = 10000, backoff = 0, schema = Some ([''id''], [''geom''])\<rparr>))"
  by (simp add: run_defs example_defs)

lemma split_cursor: "replicate 10001 x = x # (replicate 9998 x @ [x, x])"
proof -
  have "replicate 10001 x = replicate (1 + (9998 + 2)) x" by simp
  also have "\<dots> = replicate 1 x @ (replicate 9998 x @ replicate 2 x)"
    by (simp only: replicate_add)
  also have "replicate 1 x = [x]" by simp
  also have "replicate 2 x = [x, x]" by (simp add: numeral_2_eq_2)
  finally show ?thesis by simp
qed

lemma length_stdout_passes:
  "length (stdout_of (concat (replicate m
      [Fetch :: (int, int, int) event, Stdout (Json 10 [(''id'', 1)]), Stdout Newline]))) = 2 * m"
  by (induction m) simp_all

lemma zero_run:
  "\<exists>evs. loop (print_body example_library) 0 initial
       (replicate 10001 (Returns (Some (example_feature 1 (Some 10))))) =
       (evs, Inl ZeroDivisionError) \<and>
     length (stdout_of evs) = 20000"
proof -
  let ?F = "Returns (Some (example_feature 1 (Some 10))) :: (int, int) outcome"
  let ?S = "\<lambda>n. \<lparr>n_features = n, backoff = 0, schema = Some ([''id''], [''geom''])\<rparr>"
  let ?E = "[Fetch :: (int, int, int) event, Stdout (Json 10 [(''id'', 1)]), Stdout Newline]"
  let ?first = "[Fetch :: (int, int, int) event, Stderr (First_feature [(''id'', ''Integer'', 1)]),
     Stderr (Geom_field ''geom'' ''EPSG:3067''),
     Stdout (Json 10 [(''id'', 1)]), Stdout Newline]"
  have sa: "state_after (print_body example_library) 0 (?S 1) (replicate 9998 ?F) =
              Some (concat (replicate 9998 ?E), ?S 9999)"
    using example_passes [of 1 9998 0] by simp
  have last: "loop (print_body example_library) 0 (?S 9999) (?F # [?F]) =
                (?E, Inl ZeroDivisionError)"
    by (subst loop_Cons) (simp only: example_pass_zero prod.case sum.case)
  have mid: "loop (print_body example_library) 0 (?S 1) (replicate 9998 ?F @ ?F # [?F]) =
               (concat (replicate 9998 ?E) @ ?E, Inl ZeroDivisionError)"
    unfolding loop_prefix [OF sa] last by simp
  have all: "loop (print_body example_library) 0 initial (?F # (replicate 9998 ?F @ [?F, ?F])) =
               (?first @ concat (replicate 9998 ?E) @ ?E, Inl ZeroDivisionError)"
    by (subst loop_Cons) (simp only: example_first_pass prod.case sum.case loop_ctl.case mid
          prepend.simps)
  have "length (stdout_of (?first @ concat (replicate 9998 ?E) @ ?E)) = 20000"
    by (simp add: length_stdout_passes)
  with all show ?thesis
    unfolding split_cursor by blast
qed

lemma sentinel_run:
  assumes "num \<noteq> 0"
  shows "\<exists>evs. loop (print_body example_library) num initial
       (replicate 10001 (Returns (Some (example_feature 1 (Some 10))))) =
       (evs, Inr (ABORTED,
          \<lparr>n_features = 10001, backoff = 3, schema = Some ([''id''], [''geom''])\<rparr>)) \<and>
     length (stdout_of evs) = 20002"
proof -
  let ?F = "Returns (Some (example_feature 1 (Some 10))) :: (int, int) outcome"
  let ?S = "\<lambda>n. \<lparr>n_features = n, backoff = 0, schema = Some ([''id''], [''geom''])\<rparr>"
  let ?E = "[Fetch :: (int, int, int) event, Stdout (Json 10 [(''id'', 1)]), Stdout Newline]"
  let ?first = "[Fetch :: (int, int, int) event, Stderr (First_feature [(''id'', ''Integer'', 1)]),
     Stderr (Geom_field ''geom'' ''EPSG:3067''),
     Stdout (Json 10 [(''id'', 1)]), Stdout Newline]"
  let ?P = "[Fetch :: (int, int, int) event, Stdout (Json 10 [(''id'', 1)]), Stdout Newline,
     Stderr (Progress 10000 num)]"
  have sa: "state_after (print_body example_library) num (?S 1) (replicate 9998 ?F) =
              Some (concat (replicate 9998 ?E), ?S 9999)"
    using example_passes [of 1 9998 num] by simp
  have "\<exists>e. loop (print_body example_library) num (?S 10001) [] =
          (e, Inr (ABORTED, \<lparr>n_features = 10001, backoff = 3,
                 schema = Some ([''id''], [''geom''])\<rparr>)) \<and> stdout_of e = []"
    by (simp add: loop_Nil run_defs)
  then obtain e where
    fin: "loop (print_body example_library) num (?S 10001) [] =
          (e, Inr (ABORTED, \<lparr>n_features = 10001, backoff = 3,
                 schema = Some ([''id''], [''geom''])\<rparr>))" and
    so: "stdout_of e = []"
    by blast
  have p: "iteration (print_body example_library) num (?S 10000) ?F =
             (?E, Inr (Next (?S 10001)))"
    using example_pass [of 10000 num] by simp
  have l1: "loop (print_body example_library) num (?S 10000) [?F] =
              (?E @ e, Inr (ABORTED, \<lparr>n_features = 10001, backoff = 3,
                 schema = Some ([''id''], [''geom''])\<rparr>))"
    by (subst loop_Cons) (simp only: p prod.case sum.case loop_ctl.case fin prepend.simps)
  have l2: "loop (print_body example_library) num (?S 9999) (?F # [?F]) =
              (?P @ ?E @ e, Inr (ABORTED, \<lparr>n_features = 10001, backoff = 3,
                 schema = Some ([''id''], [''geom''])\<rparr>))"
    by (subst loop_Cons)
       (simp only: example_pass_progress [OF assms] prod.case sum.case loop_ctl.case l1
          prepend.simps)
  have mid: "loop (print_body example_library) num (?S 1) (replicate 9998 ?F @ ?F # [?F]) =
               (concat (replicate 9998 ?E) @ ?P @ ?E @ e,
                Inr (ABORTED, \<lparr>n_features = 10001, backoff = 3,
                 schema = Some ([''id''], [''geom''])\<rparr>))"
    unfolding loop_prefix [OF sa] l2 by simp
  have all: "loop (print_body example_library) num initial
               (?F # (replicate 9998 ?F @ [?F, ?F])) =
               (?first @ concat (replicate 9998 ?E) @ ?P @ ?E @ e,
                Inr (ABORTED, \<lparr>n_features = 10001, backoff = 3,
                 schema = Some ([''id''], [''geom''])\<rparr>))"
    by (subst loop_Cons) (simp only: example_first_pass prod.case sum.case loop_ctl.case mid
          prepend.simps)
  have "length (stdout_of (?first @ concat (replicate 9998 ?E) @ ?P @ ?E @ e)) = 20002"
    by (simp add: length_stdout_passes so)
  with all show ?thesis
    unfolding split_cursor by blast
qed

text \<open>
  Claim C8, at an estimate of 0. The layer \<open>zero_count_layer\<close> answers 0 to the count
  query and then delivers 10,001 features. Without a filter the estimate is that 0: the
  progress line after the 10,000th feature divides by it (line 119), the
  \<^verbatim>\<open>ZeroDivisionError\<close> is caught by nothing, and the process ends with status 1 after
  10,000 lines. With a filter the same features are read under the estimate 1,000,000:
  all 10,001 lines are written and the process ends with status 0. So the estimate
  decides how the run ends and what it writes, which the claim excludes.
\<close>

theorem zero_estimate_divergence:
  "snd (main example_library zero_count_open
          [''dump_wfs.py'', ''http://example.org/wfs'', ''growing'']) = 1 \<and>
   Stderr (Uncaught ZeroDivisionError) \<in> set (fst (main example_library zero_count_open
          [''dump_wfs.py'', ''http://example.org/wfs'', ''growing''])) \<and>
   length (stdout_of (fst (main example_library zero_count_open
          [''dump_wfs.py'', ''http://example.org/wfs'', ''growing'']))) = 20000 \<and>
   snd (main example_library zero_count_open
          [''dump_wfs.py'', ''http://example.org/wfs'', ''growing'', ''id > 0'']) = 0 \<and>
   length (stdout_of (fst (main example_library zero_count_open
          [''dump_wfs.py'', ''http://example.org/wfs'', ''growing'', ''id > 0'']))) = 20002"
proof -
  let ?a1 = "[''dump_wfs.py'', ''http://example.org/wfs'', ''growing'']"
  let ?a2 = "[''dump_wfs.py'', ''http://example.org/wfs'', ''growing'', ''id > 0'']"
  let ?F = "Returns (Some (example_feature 1 (Some 10))) :: (int, int) outcome"
  have fnd: "find (\<lambda>l. lname l = ''growing'') [zero_count_layer] = Some zero_count_layer"
    by (simp add: zero_count_layer_def)
  have srs: "lsrs zero_count_layer = Some ''EPSG:3067''"
    by (simp add: zero_count_layer_def)
  have cur: "features zero_count_layer x = replicate 10001 ?F" for x
    by (simp add: zero_count_layer_def)
  have est0: "estimated_count zero_count_layer None = 0"
    by (simp add: estimated_count_def effective_filter_def zero_count_layer_def)
  have est1: "estimated_count zero_count_layer (Some ''id > 0'') = 1000000"
    by (simp add: estimated_count_def effective_filter_def)
  from zero_run obtain e0 where
    l0: "loop (print_body example_library) 0 initial (replicate 10001 ?F) =
           (e0, Inl ZeroDivisionError)" and
    n0: "length (stdout_of e0) = 20000"
    by blast
  from sentinel_run [of 1000000] obtain e1 where
    l1: "loop (print_body example_library) 1000000 initial (replicate 10001 ?F) =
           (e1, Inr (ABORTED,
              \<lparr>n_features = 10001, backoff = 3, schema = Some ([''id''], [''geom''])\<rparr>))" and
    n1: "length (stdout_of e1) = 20002"
    by auto
  have g0: "print_features_geojson example_library [zero_count_layer] ''growing'' None =
              (session_events zero_count_layer None ''EPSG:3067'' @ e0, Inl ZeroDivisionError)"
    unfolding print_features_geojson_def get_features_found [OF fnd srs] est0 cur l0
    by simp
  have g1: "print_features_geojson example_library [zero_count_layer] ''growing''
              (Some ''id > 0'') =
              (session_events zero_count_layer (Some ''id > 0'') ''EPSG:3067'' @ e1 @
               [Stderr Finished, Stderr (Final_count 10001)], Inr ABORTED)"
    unfolding print_features_geojson_def get_features_found [OF fnd srs] est1 cur l1
    by simp
  have m0: "main example_library zero_count_open ?a1 =
              (banner ''http://example.org/wfs'' ''growing'' None @
               session_events zero_count_layer None ''EPSG:3067'' @ e0 @
               [Stderr (Uncaught ZeroDivisionError)], 1)"
    using main_streaming [where argv="?a1" and Open=zero_count_open
        and wfs_ds="[zero_count_layer]" and L=example_library] g0
    by (simp add: zero_count_open_def)
  have m1: "main example_library zero_count_open ?a2 =
              (banner ''http://example.org/wfs'' ''growing'' (Some ''id > 0'') @
               session_events zero_count_layer (Some ''id > 0'') ''EPSG:3067'' @ e1 @
               [Stderr Finished, Stderr (Final_count 10001)], 0)"
    using main_streaming [where argv="?a2" and Open=zero_count_open
        and wfs_ds="[zero_count_layer]" and L=example_library] g1
    by (simp add: zero_count_open_def)
  show ?thesis
    unfolding m0 m1 by (simp add: n0 n1)
qed

section \<open>Standard output of a scan\<close>

lemma ndjson_Nil [simp]: "ndjson [] = []"
  by (simp add: ndjson_def)

lemma ndjson_Cons [simp]: "ndjson ((d, a) # recs) = Json d a # Newline # ndjson recs"
  by (simp add: ndjson_def)

lemma ndjson_append [simp]: "ndjson (xs @ ys) = ndjson xs @ ndjson ys"
  by (simp add: ndjson_def)


lemma stdout_of_report_progress [simp]: "stdout_of (fst (report_progress num n)) = []"
  by (simp add: report_progress_def emit_def ok_def raise_def)

lemma stdout_of_print_gdefns [simp]: "stdout_of (fst (print_gdefns gs)) = []"
proof (induction gs)
  case Nil
  show ?case by (simp add: ok_def)
next
  case (Cons x gs)
  obtain name srs where "x = (name, srs)" by (cases x) simp
  with Cons show ?case by (cases srs) (simp_all add: raise_def)
qed



lemma features_of_pad [simp]: "features_of (replicate k (Returns None)) = []"
  by (induction k) simp_all










section \<open>The pass for a feature within a scan\<close>

lemma skipped_Nil [simp]: "skipped [] = []"
  by (simp add: skipped_def)

lemma skipped_append [simp]: "skipped (xs @ ys) = skipped xs @ skipped ys"
  by (simp add: skipped_def)

lemma skipped_Fetch [simp]: "skipped (Fetch # evs) = skipped evs"
  by (simp add: skipped_def)

lemma skipped_Sleep [simp]: "skipped (Sleep n # evs) = skipped evs"
  by (simp add: skipped_def)

lemma skipped_GetFeatureCount [simp]: "skipped (GetFeatureCount # evs) = skipped evs"
  by (simp add: skipped_def)

lemma skipped_SetAttributeFilter [simp]: "skipped (SetAttributeFilter f # evs) = skipped evs"
  by (simp add: skipped_def)

lemma skipped_Stdout [simp]: "skipped (Stdout x # evs) = skipped evs"
  by (simp add: skipped_def)

lemma skipped_Stderr [simp]:
  "skipped (Stderr d # evs) = (if is_skip d then d # skipped evs else skipped evs)"
  by (simp add: skipped_def)

lemma skipped_print_gdefns [simp]: "skipped (fst (print_gdefns gs)) = []"
proof (induction gs)
  case Nil
  show ?case by (simp add: ok_def)
next
  case (Cons x gs)
  obtain name srs where "x = (name, srs)" by (cases x) simp
  with Cons show ?case by (cases srs) (simp_all add: raise_def)
qed

lemma sleeps_of_print_gdefns [simp]: "sleeps_of (fst (print_gdefns gs)) = []"
proof (induction gs)
  case Nil
  show ?case by (simp add: ok_def)
next
  case (Cons x gs)
  obtain name srs where "x = (name, srs)" by (cases x) simp
  with Cons show ?case by (cases srs) (simp_all add: raise_def)
qed

lemma skipped_capture_schema [simp]: "skipped (fst (capture_schema f)) = []"
  by (simp add: capture_schema_def Let_def fst_seq lift_def emit_def ok_def split: sum.splits)

lemma sleeps_of_capture_schema [simp]: "sleeps_of (fst (capture_schema f)) = []"
  by (simp add: capture_schema_def Let_def fst_seq lift_def emit_def ok_def split: sum.splits)








lemma length_geom_names [simp]: "length (geom_names f) = GetGeomFieldCount f"
  by (simp add: geom_names_def)

section \<open>The lines of one feature\<close>





section \<open>Null geometries\<close>




end
